theory Spec2Isabelle
  imports Main
begin

section \<open>Text: characters, Python string methods, lines of a file\<close>

text \<open>
  Strings are lists of characters (code points below 256). The file is modelled by its
  text as Python's text layer presents it on a POSIX platform: a line ends with the
  line feed character.
\<close>

abbreviation (input) NL :: char where "NL \<equiv> CHR 0x0A"
abbreviation (input) DQ :: char where "DQ \<equiv> CHR 0x22"
abbreviation (input) SQ :: char where "SQ \<equiv> CHR 0x27"
abbreviation (input) EQ :: char where "EQ \<equiv> CHR ''=''"

text \<open>The characters that \<open>str.strip()\<close>, \<open>str.isspace()\<close> and the regex class
  \<open>\s\<close> treat as white space (among the code points below 256).\<close>

definition isspace :: "char \<Rightarrow> bool" where
  "isspace c = (c \<in> {CHR 0x09, CHR 0x0A, CHR 0x0B, CHR 0x0C, CHR 0x0D,
                       CHR 0x1C, CHR 0x1D, CHR 0x1E, CHR 0x1F, CHR 0x20,
                       CHR 0x85, CHR 0xA0})"

text \<open>The regex classes \<open>[a-zA-Z_]\<close> and \<open>[a-zA-Z0-9_]\<close>.\<close>

definition ident_start :: "char \<Rightarrow> bool" where
  "ident_start c = (c \<in> set ''abcdefghijklmnopqrstuvwxyzABCDEFGHIJKLMNOPQRSTUVWXYZ_'')"

definition ident_char :: "char \<Rightarrow> bool" where
  "ident_char c = (ident_start c \<or> c \<in> set ''0123456789'')"

text \<open>\<open>s.strip()\<close>, \<open>s.strip('"')\<close>, \<open>s.startswith(p)\<close>, \<open>s.endswith(p)\<close>.\<close>

definition strip :: "string \<Rightarrow> string" where
  "strip s = rev (dropWhile isspace (rev (dropWhile isspace s)))"

definition strip_dq :: "string \<Rightarrow> string" where
  "strip_dq s = rev (dropWhile (\<lambda>c. c = DQ) (rev (dropWhile (\<lambda>c. c = DQ) s)))"

definition startswith :: "string \<Rightarrow> string \<Rightarrow> bool" where
  "startswith s p = (take (length p) s = p)"

definition endswith :: "string \<Rightarrow> string \<Rightarrow> bool" where
  "endswith s p = (length p \<le> length s \<and> drop (length s - length p) s = p)"

text \<open>\<open>file.readlines()\<close>: the text cut after every line feed; a last line without
  a line feed is kept as it is.\<close>

fun readlines :: "string \<Rightarrow> string list" where
  "readlines [] = []"
| "readlines (c # cs) =
     (if c = NL then [c] # readlines cs
      else (case readlines cs of [] \<Rightarrow> [[c]] | l # ls \<Rightarrow> (c # l) # ls))"

section \<open>The regular expressions of the source\<close>

text \<open>
  \<open>encrypt_secrets\<close> collects the names that already have an encrypted line with
  \<^verbatim>\<open>re.compile(r"^\s*([a-zA-Z_][a-zA-Z0-9_]*)_ENCRYPTED\s*=").match(line)\<close>.
  After the leading white space the pattern can only consume the maximal run \<open>w\<close> of
  identifier characters: the literal \<open>_ENCRYPTED\<close> consists of identifier characters and
  must be followed by white space or \<open>=\<close>, so it is the end of the run. Group 1 is the
  run without its last ten characters; it must be non-empty and the run must start with
  a letter or an underscore.
\<close>

definition encrypted_run :: "string \<Rightarrow> string option" where
  "encrypted_run line =
     (let s = dropWhile isspace line;
          w = takeWhile ident_char s;
          r = dropWhile isspace (dropWhile ident_char s)
      in if 10 < length w \<and> ident_start (hd w) \<and> endswith w ''_ENCRYPTED''
            \<and> r \<noteq> [] \<and> hd r = EQ
         then Some w else None)"

definition encrypted_pattern :: "string \<Rightarrow> string option" where
  "encrypted_pattern line = map_option (\<lambda>w. take (length w - 10) w) (encrypted_run line)"

text \<open>
  \<open>decrypt_secrets\<close> uses
  \<^verbatim>\<open>re.compile(r"^\s*([a-zA-Z_][a-zA-Z0-9_]*_ENCRYPTED)\s*=")\<close>: the same match, but group 1
  is the whole run.
\<close>

definition encrypted_pattern_full :: "string \<Rightarrow> string option" where
  "encrypted_pattern_full line = encrypted_run line"

text \<open>
  \<open>decrypt_secrets\<close> recognises a secret with
  \<^verbatim>\<open>re.search(r'([a-zA-Z_][a-zA-Z0-9_]*)\s*=\s*["\'](.*?)["\']', line)\<close>.
  \<open>secret_match_at\<close> is the match that starts at the head of its argument: the name is
  the maximal run of identifier characters (a shorter one would be followed by an
  identifier character, not by white space or \<open>=\<close>), then white space, \<open>=\<close>, white
  space, a quote of either kind, and the value is the shortest text without a line feed
  that is followed by a quote of either kind. \<open>secret_search\<close> is \<open>re.search\<close>: the first
  position, from the left, at which there is a match; it returns groups 1 and 2.
\<close>

definition is_quote :: "char \<Rightarrow> bool" where
  "is_quote c = (c = DQ \<or> c = SQ)"

definition secret_match_at :: "string \<Rightarrow> (string \<times> string) option" where
  "secret_match_at s =
     (case s of [] \<Rightarrow> None
      | c # _ \<Rightarrow>
         if ident_start c then
           (case dropWhile isspace (dropWhile ident_char s) of [] \<Rightarrow> None
            | e # r \<Rightarrow>
               if e = EQ then
                 (case dropWhile isspace r of [] \<Rightarrow> None
                  | q # t \<Rightarrow>
                     if is_quote q \<and> dropWhile (\<lambda>c. \<not> is_quote c) t \<noteq> []
                        \<and> NL \<notin> set (takeWhile (\<lambda>c. \<not> is_quote c) t)
                     then Some (takeWhile ident_char s, takeWhile (\<lambda>c. \<not> is_quote c) t)
                     else None)
               else None)
         else None)"

fun secret_search :: "string \<Rightarrow> (string \<times> string) option" where
  "secret_search [] = None"
| "secret_search (c # cs) =
     (case secret_match_at (c # cs) of Some m \<Rightarrow> Some m | None \<Rightarrow> secret_search cs)"

section \<open>The collaborators\<close>

text \<open>
  What the operations take from outside \<open>secman.py\<close>: the environment (\<open>os.getenv\<close>), the
  cipher of \<open>crypto_utils\<close>, the clock and the hash.
  \<^item> \<open>encrypt_value w n value key\<close> is the \<open>n\<close>-th call of \<open>encrypt_value(value, key)\<close> in a
    pass (the cipher is randomised, so the call number is an argument); \<open>key\<close> is \<open>None\<close>
    when the environment variable is not set; the result \<open>None\<close> is a raised exception.
  \<^item> \<open>decrypt_value w value key\<close> is \<open>decrypt_value(value, key)\<close>; \<open>None\<close> is a raised exception.
  \<^item> \<open>now w n\<close> is \<open>datetime.datetime.now().strftime("%Y-%m-%d %H:%M:%S")\<close> at the
    \<open>n\<close>-th reading of the clock in a pass.
  \<^item> \<open>sha512_b64 w s\<close> is \<open>base64.b64encode(hashlib.sha512(s.encode()).digest()).decode()\<close>.
\<close>

record world =
  getenv :: "string \<Rightarrow> string option"
  encrypt_value :: "nat \<Rightarrow> string \<Rightarrow> string option \<Rightarrow> string option"
  decrypt_value :: "string \<Rightarrow> string \<Rightarrow> string option"
  now :: "nat \<Rightarrow> string"
  sha512_b64 :: "string \<Rightarrow> string"

text \<open>How a pass ends other than by returning: \<open>sys.exit(1)\<close>, the \<open>IndexError\<close> of
  \<open>lines[0]\<close> on an empty file, the exception of \<open>decrypt_value\<close>, which nothing catches.\<close>

datatype exit = SystemExit nat | IndexError | DecryptException

section \<open>The operations\<close>

definition HEADER_DISCLAIMER :: string where
  "HEADER_DISCLAIMER =
     ''# Generated by secman.py. Do not edit manually, unless you know what you are doing''"

text \<open>Python's truth value of \<open>master_key\<close>: \<open>None\<close> and the empty string are false.\<close>

definition truthy :: "string option \<Rightarrow> bool" where
  "truthy k = (case k of None \<Rightarrow> False | Some s \<Rightarrow> s \<noteq> [])"

text \<open>The f-string \<open>f"{master_key}"\<close>.\<close>

definition fstr :: "string option \<Rightarrow> string" where
  "fstr k = (case k of None \<Rightarrow> ''None'' | Some s \<Rightarrow> s)"

text \<open>\<open>signature[-8:]\<close> and \<open>secret_name[:-10]\<close>.\<close>

definition last8 :: "string \<Rightarrow> string" where
  "last8 s = drop (length s - 8) s"

definition but_last10 :: "string \<Rightarrow> string" where
  "but_last10 s = take (length s - 10) s"

text \<open>The test \<open>line.startswith("#") or line.strip() == ""\<close>, with which every loop
  over the lines begins.\<close>

definition comment_or_blank :: "string \<Rightarrow> bool" where
  "comment_or_blank line = (startswith line ''#'' \<or> strip line = [])"

text \<open>The name on a line: the text before the first \<open>=\<close> (the whole line when there is
  none), stripped. It is \<open>line.split("=")[0].strip()\<close> in \<open>delete_secret\<close> and the first
  component of \<open>line.split("=", 1)\<close>, stripped, in \<open>encrypt_secrets\<close>. The value is the
  second component with the two \<open>strip\<close>s of \<open>encrypt_secrets\<close>.\<close>

definition secret_name_of :: "string \<Rightarrow> string" where
  "secret_name_of line = strip (takeWhile (\<lambda>c. c \<noteq> EQ) line)"

definition secret_value_of :: "string \<Rightarrow> string" where
  "secret_value_of line = strip_dq (strip (tl (dropWhile (\<lambda>c. c \<noteq> EQ) line)))"

subsection \<open>\<open>delete_secret\<close>\<close>

text \<open>What the loop of \<open>delete_secret\<close> writes for one line.\<close>

definition delete_line :: "string \<Rightarrow> string \<Rightarrow> string list" where
  "delete_line secret_name line =
     (if comment_or_blank line then [line]
      else if secret_name_of line = secret_name then []
      else [line])"

definition delete_secret :: "string \<Rightarrow> string \<Rightarrow> string" where
  "delete_secret content secret_name =
     concat (concat (map (delete_line secret_name) (readlines content)))"

subsection \<open>\<open>encrypt_secrets\<close>\<close>

text \<open>The two lines written for a newly encrypted secret.\<close>

definition encrypted_line :: "world \<Rightarrow> string \<Rightarrow> string option \<Rightarrow> nat \<Rightarrow> string \<Rightarrow> string \<Rightarrow> string" where
  \<open>encrypted_line w master_key_env master_key n secret_name encrypted_value =
     secret_name @ '' = ""\<newline>'' @ secret_name @ ''_ENCRYPTED = "'' @ encrypted_value
       @ ''"    #'' @ master_key_env @ '','' @ last8 (sha512_b64 w (fstr master_key))
       @ '','' @ now w n @ [NL]\<close>

text \<open>One turn of the loop of \<open>encrypt_secrets\<close>: the text written and the new count, or
  \<open>None\<close> when \<open>encrypt_value\<close> raised and the pass ends with \<open>sys.exit(1)\<close>. The count of
  encrypted secrets is also the number of calls of the cipher and of the clock so far.\<close>

definition encrypt_line ::
  "world \<Rightarrow> string \<Rightarrow> string option \<Rightarrow> string set \<Rightarrow> nat \<Rightarrow> string \<Rightarrow> (string \<times> nat) option" where
  \<open>encrypt_line w master_key_env master_key encrypted_secrets count_encrypted line =
     (if comment_or_blank line \<or> EQ \<notin> set line
      then Some (line, count_encrypted)
      else
        let secret_name = secret_name_of line; secret_value = secret_value_of line in
        if secret_name = ''MASTER_KEY_ENV'' then Some (line, count_encrypted)
        else if endswith (strip secret_name) ''_ENCRYPTED'' then Some (line, count_encrypted)
        else if secret_name \<in> encrypted_secrets
        then Some (secret_name @ '' = ""\<newline>'', count_encrypted)
        else
          (case encrypt_value w count_encrypted secret_value master_key of
             None \<Rightarrow> None
           | Some encrypted_value \<Rightarrow>
               Some (encrypted_line w master_key_env master_key count_encrypted
                       secret_name encrypted_value,
                     count_encrypted + 1)))\<close>

text \<open>The loop: the list of the texts written, in order, and how the loop ended.\<close>

fun encrypt_loop ::
  "world \<Rightarrow> string \<Rightarrow> string option \<Rightarrow> string set \<Rightarrow> nat \<Rightarrow> string list
     \<Rightarrow> string list \<times> (exit + nat)" where
  "encrypt_loop w e k encs n [] = ([], Inr n)"
| "encrypt_loop w e k encs n (line # rest) =
     (case encrypt_line w e k encs n line of
        None \<Rightarrow> ([], Inl (SystemExit 1))
      | Some (chunk, n') \<Rightarrow>
          (case encrypt_loop w e k encs n' rest of (out, r) \<Rightarrow> (chunk # out, r)))"

text \<open>
  \<open>encrypt_secrets w content master_key_env master_key\<close>: the content of the file after
  the call and its result (the count returned, or how the call ended). The file is
  opened for writing, which empties it, before \<open>lines[0]\<close> is read; what was written
  before an exit stays in the file.
\<close>

definition encrypt_secrets ::
  "world \<Rightarrow> string \<Rightarrow> string \<Rightarrow> string option \<Rightarrow> string \<times> (exit + nat)" where
  "encrypt_secrets w content master_key_env master_key =
     (let master_key = (if truthy master_key then master_key else getenv w master_key_env);
          lines = readlines content;
          encrypted_secrets = set (List.map_filter encrypted_pattern lines)
      in case lines of
           [] \<Rightarrow> ([], Inl IndexError)
         | first # _ \<Rightarrow>
             (case encrypt_loop w master_key_env master_key encrypted_secrets 0 lines of
                (out, r) \<Rightarrow>
                  (concat ((if strip first \<noteq> HEADER_DISCLAIMER
                            then [HEADER_DISCLAIMER @ [NL]] else []) @ out), r)))"

subsection \<open>\<open>decrypt_secrets\<close>\<close>

text \<open>One turn of the loop of \<open>decrypt_secrets\<close>: the text written (nothing for a line
  that is dropped), or \<open>None\<close> when \<open>decrypt_value\<close> raised.\<close>

definition decrypt_line :: "world \<Rightarrow> string \<Rightarrow> string set \<Rightarrow> string \<Rightarrow> string option" where
  \<open>decrypt_line w master_key encrypted_secrets line =
     (if comment_or_blank line then Some line
      else
        (case secret_search line of
           None \<Rightarrow> Some []
         | Some (secret_name, encrypted_value) \<Rightarrow>
             if secret_name = ''MASTER_KEY_ENV'' then Some line
             else if \<not> endswith secret_name ''_ENCRYPTED''
                     \<and> secret_name @ ''_ENCRYPTED'' \<notin> encrypted_secrets
             then Some (secret_name @ '' = "'' @ encrypted_value @ ''"\<newline>'')
             else if endswith secret_name ''_ENCRYPTED'' then
               (case decrypt_value w encrypted_value master_key of
                  None \<Rightarrow> None
                | Some decrypted_value \<Rightarrow>
                    Some (but_last10 secret_name @ '' = "'' @ decrypted_value @ ''"\<newline>''))
             else Some []))\<close>

fun decrypt_loop :: "world \<Rightarrow> string \<Rightarrow> string set \<Rightarrow> string list \<Rightarrow> string list \<times> bool" where
  "decrypt_loop w k encs [] = ([], True)"
| "decrypt_loop w k encs (line # rest) =
     (case decrypt_line w k encs line of
        None \<Rightarrow> ([], False)
      | Some chunk \<Rightarrow> (case decrypt_loop w k encs rest of (out, ok) \<Rightarrow> (chunk # out, ok)))"

text \<open>How a call of \<open>decrypt_secrets\<close> ends: it prints that the environment variable is
  not set and returns before it opens the file; it returns at the end of the loop; or
  the exception of \<open>decrypt_value\<close> leaves the function.\<close>

datatype decrypt_end = KeyNotSet | Completed | Raised exit

text \<open>
  \<open>decrypt_secrets w content master_key_env master_key\<close>: the content of the file after
  the call and how the call ended. The argument \<open>master_key\<close> is overwritten in the first
  statement.
\<close>

definition decrypt_secrets ::
  "world \<Rightarrow> string \<Rightarrow> string \<Rightarrow> string option \<Rightarrow> string \<times> decrypt_end" where
  "decrypt_secrets w content master_key_env master_key =
     (let master_key = getenv w master_key_env in
      case master_key of
        None \<Rightarrow> (content, KeyNotSet)
      | Some key \<Rightarrow>
          if key = [] then (content, KeyNotSet)
          else
            let lines = readlines content;
                encrypted_secrets = set (List.map_filter encrypted_pattern_full lines)
            in case decrypt_loop w key encrypted_secrets lines of
                 (out, ok) \<Rightarrow> (concat out, if ok then Completed else Raised DecryptException))"

section \<open>A small world for concrete runs\<close>

text \<open>An environment with \<open>APP_KEY\<close> set, a cipher given by a table of three
  plaintexts under that key, a fixed clock and a fixed hash.\<close>

definition demo_encrypt :: "string \<Rightarrow> string option" where
  "demo_encrypt v =
     (if v = ''bar'' then Some ''gAAAAABmYmFy''
      else if v = ''qux'' then Some ''gAAAAABmcXV4''
      else if v = [] then Some ''gAAAAABm''
      else None)"

definition demo_decrypt :: "string \<Rightarrow> string option" where
  "demo_decrypt c =
     (if c = ''gAAAAABmYmFy'' then Some ''bar''
      else if c = ''gAAAAABmcXV4'' then Some ''qux''
      else if c = ''gAAAAABm'' then Some []
      else None)"

definition demo_world :: world where
  "demo_world =
     \<lparr> getenv = (\<lambda>n. if n = ''APP_KEY'' then Some ''supersecretkey'' else None),
       encrypt_value = (\<lambda>n v k. if k = Some ''supersecretkey'' then demo_encrypt v else None),
       decrypt_value = (\<lambda>c k. if k = ''supersecretkey'' then demo_decrypt c else None),
       now = (\<lambda>n. ''2024-06-18 10:00:00''),
       sha512_b64 = (\<lambda>s. ''c2VjbWFuLXNpZ25hdHVyZQ=='') \<rparr>"

text \<open>A world whose cipher always raises (an invalid key).\<close>

definition bad_key_world :: world where
  "bad_key_world =
     \<lparr> getenv = (\<lambda>n. if n = ''APP_KEY'' then Some ''not-a-fernet-key'' else None),
       encrypt_value = (\<lambda>n v k. None),
       decrypt_value = (\<lambda>c k. None),
       now = (\<lambda>n. ''2024-06-18 10:00:00''),
       sha512_b64 = (\<lambda>s. ''c2VjbWFuLXNpZ25hdHVyZQ=='') \<rparr>"

text \<open>Scenario A of the specification, and the file encrypt-all makes of it.\<close>

definition scenario_a :: string where
  \<open>scenario_a = ''MASTER_KEY_ENV = "APP_KEY"\<newline>FOO = "bar"\<newline>''\<close>

definition scenario_a_encrypted :: string where
  "scenario_a_encrypted = fst (encrypt_secrets demo_world scenario_a ''APP_KEY'' None)"

section \<open>Notions used in the statements\<close>



text \<open>A text that is empty or ends with a line feed; a single line (no line feed but
  possibly at its end); a property of every element of a list but the last.\<close>

definition terminated :: "string \<Rightarrow> bool" where
  "terminated s = (s = [] \<or> last s = NL)"

definition is_line :: "string \<Rightarrow> bool" where
  "is_line l = (l \<noteq> [] \<and> NL \<notin> set (butlast l))"

fun all_but_last :: "('a \<Rightarrow> bool) \<Rightarrow> 'a list \<Rightarrow> bool" where
  "all_but_last P [] = True"
| "all_but_last P [x] = True"
| "all_but_last P (x # y # ys) = (P x \<and> all_but_last P (y # ys))"

section \<open>Lines of a file\<close>


lemma readlines_Nil_iff [simp]: "readlines s = [] \<longleftrightarrow> s = []"
  by (cases s) (auto split: list.splits)

lemma readlines_terminated_append:
  "terminated a \<Longrightarrow> readlines (a @ b) = readlines a @ readlines b"
proof (induction a)
  case Nil
  then show ?case by simp
next
  case (Cons c a)
  show ?case
  proof (cases "a = []")
    case True
    with Cons.prems show ?thesis by (simp add: terminated_def)
  next
    case False
    with Cons have ih: "readlines (a @ b) = readlines a @ readlines b"
      by (simp add: terminated_def)
    from False obtain l ls where "readlines a = l # ls"
      by (cases "readlines a") auto
    with ih show ?thesis by simp
  qed
qed

lemma readlines_is_line: "is_line l \<Longrightarrow> readlines l = [l]"
proof (induction l)
  case Nil
  then show ?case by (simp add: is_line_def)
next
  case (Cons c l)
  show ?case
  proof (cases "l = []")
    case True
    then show ?thesis by simp
  next
    case False
    with Cons.prems have "c \<noteq> NL" "is_line l"
      by (auto simp: is_line_def dest: in_set_butlastD)
    with Cons.IH show ?thesis by simp
  qed
qed

lemma readlines_lines:
  "list_all is_line (readlines s) \<and> all_but_last terminated (readlines s)"
proof (induction s)
  case Nil
  then show ?case by simp
next
  case (Cons c s)
  show ?case
  proof (cases "c = NL")
    case True
    with Cons show ?thesis
      by (cases "readlines s") (auto simp: is_line_def terminated_def)
  next
    case False
    show ?thesis
    proof (cases "readlines s")
      case Nil
      with False show ?thesis by (simp add: is_line_def)
    next
      case (Cons l ls)
      with Cons.IH False show ?thesis
        by (cases ls) (auto simp: is_line_def terminated_def)
    qed
  qed
qed

lemma all_but_last_Cons: "all_but_last P (x # xs) \<longleftrightarrow> (xs = [] \<or> P x \<and> all_but_last P xs)"
  by (cases xs) auto


lemma readlines_chunks:
  "all_but_last terminated cs \<Longrightarrow> readlines (concat cs) = concat (map readlines cs)"
proof (induction cs)
  case Nil
  then show ?case by simp
next
  case (Cons c cs)
  then show ?case
    by (cases "cs = []") (auto simp: all_but_last_Cons readlines_terminated_append)
qed

lemma all_but_last_filter: "all_but_last P xs \<Longrightarrow> all_but_last P (filter Q xs)"
proof (induction xs)
  case Nil
  then show ?case by simp
next
  case (Cons x xs)
  then show ?case
    by (cases "xs = []") (auto simp: all_but_last_Cons)
qed

lemma readlines_of_lines:
  assumes "list_all is_line ls" "all_but_last terminated ls"
  shows "readlines (concat ls) = ls"
proof -
  have "concat (map readlines ls) = ls"
    using assms(1) by (induction ls) (auto simp: readlines_is_line)
  with assms(2) show ?thesis by (simp add: readlines_chunks)
qed


section \<open>Facts about lines and loops\<close>

lemma encrypt_line_keep:
  "comment_or_blank line \<or> EQ \<notin> set line \<Longrightarrow> encrypt_line w e k encs n line = Some (line, n)"
  by (simp add: encrypt_line_def)

lemma encrypt_line_new:
  assumes "\<not> comment_or_blank line" "EQ \<in> set line"
    and "secret_name_of line \<noteq> ''MASTER_KEY_ENV''"
    and "\<not> endswith (strip (secret_name_of line)) ''_ENCRYPTED''"
    and "secret_name_of line \<notin> encs"
  shows "encrypt_line w e k encs n line =
     (case encrypt_value w n (secret_value_of line) k of None \<Rightarrow> None
      | Some c \<Rightarrow> Some (encrypted_line w e k n (secret_name_of line) c, Suc n))"
  using assms by (simp add: encrypt_line_def Let_def split: option.splits)







lemma strip_keeps: "c \<in> set s \<Longrightarrow> \<not> isspace c \<Longrightarrow> c \<in> set (strip s)"
proof -
  assume c: "c \<in> set s" "\<not> isspace c"
  have k: "\<And>xs. c \<in> set xs \<Longrightarrow> c \<in> set (dropWhile isspace xs)"
  proof -
    fix xs assume "c \<in> set xs"
    then show "c \<in> set (dropWhile isspace xs)"
      using c(2) by (induction xs) auto
  qed
  show ?thesis
    using k [of "rev (dropWhile isspace s)"] k [of s] c(1) by (simp add: strip_def)
qed







lemma lines_of_delete:
  "concat (map (delete_line x) ls) = filter (\<lambda>l. comment_or_blank l \<or> secret_name_of l \<noteq> x) ls"
  by (induction ls) (auto simp: delete_line_def)







lemma encrypt_loop_first:
  "encrypt_line w e k encs n l = Some (c, n')
     \<Longrightarrow> \<exists>out'. fst (encrypt_loop w e k encs n (l # ls)) = c # out' \<and> (ls = [] \<longrightarrow> out' = [])"
  by (auto split: prod.splits)

lemma decrypt_loop_first:
  "decrypt_line w k encs l = Some c
     \<Longrightarrow> \<exists>out'. fst (decrypt_loop w k encs (l # ls)) = c # out' \<and> (ls = [] \<longrightarrow> out' = [])"
  by (auto split: prod.splits)


text \<open>The first line of a text that starts with a whole line.\<close>

lemma readlines_first_line:
  assumes "readlines s = l # ls" and "out = l # out'" and "ls = [] \<longrightarrow> out' = []"
  shows "\<exists>t. readlines (concat out) = l # t"
proof -
  from readlines_lines [of s] assms(1) have l: "is_line l" and t: "ls \<noteq> [] \<longrightarrow> terminated l"
    by (auto simp: all_but_last_Cons)
  show ?thesis
  proof (cases "ls = []")
    case True
    with assms l show ?thesis by (simp add: readlines_is_line)
  next
    case False
    with t have "terminated l" by simp
    then have "readlines (l @ concat out') = readlines l @ readlines (concat out')"
      by (rule readlines_terminated_append)
    with l assms(2) show ?thesis by (simp add: readlines_is_line)
  qed
qed

lemma header_facts:
  "NL \<notin> set HEADER_DISCLAIMER" "EQ \<notin> set HEADER_DISCLAIMER"
  "strip (HEADER_DISCLAIMER @ [NL]) = HEADER_DISCLAIMER"
  "comment_or_blank (HEADER_DISCLAIMER @ [NL])"
  by code_simp+

lemma is_line_header: "is_line (HEADER_DISCLAIMER @ [NL])"
  by (simp add: is_line_def header_facts)

lemma terminated_header: "terminated (HEADER_DISCLAIMER @ [NL])"
  by (simp add: terminated_def)

lemma encrypt_secrets_unfold:
  assumes "readlines content = first # rest"
    and "encrypt_loop w env (if truthy mk then mk else getenv w env)
           (set (List.map_filter encrypted_pattern (readlines content))) 0 (readlines content)
         = (out, r)"
  shows "encrypt_secrets w content env mk =
     (concat ((if strip first \<noteq> HEADER_DISCLAIMER then [HEADER_DISCLAIMER @ [NL]] else []) @ out), r)"
  unfolding encrypt_secrets_def Let_def assms(2) by (simp add: assms(1))

lemma decrypt_secrets_unfold:
  assumes "getenv w env = Some k" "k \<noteq> []"
    and "decrypt_loop w k (set (List.map_filter encrypted_pattern_full (readlines content)))
           (readlines content) = (out, ok)"
  shows "decrypt_secrets w content env mk =
     (concat out, if ok then Completed else Raised DecryptException)"
  using assms by (simp add: decrypt_secrets_def Let_def)

lemma encrypt_secrets_first_line:
  assumes "content \<noteq> []"
  shows "\<exists>l t. readlines (fst (encrypt_secrets w content env mk)) = l # t
           \<and> strip l = HEADER_DISCLAIMER"
proof -
  obtain first rest where ls: "readlines content = first # rest"
    using assms by (cases "readlines content") auto
  let ?k = "if truthy mk then mk else getenv w env"
  let ?encs = "set (List.map_filter encrypted_pattern (readlines content))"
  obtain out r where loop: "encrypt_loop w env ?k ?encs 0 (readlines content) = (out, r)"
    by (cases "encrypt_loop w env ?k ?encs 0 (readlines content)")
  note run = encrypt_secrets_unfold [OF ls loop]
  show ?thesis
  proof (cases "strip first = HEADER_DISCLAIMER")
    case False
    have "readlines ((HEADER_DISCLAIMER @ [NL]) @ concat out)
            = readlines (HEADER_DISCLAIMER @ [NL]) @ readlines (concat out)"
      by (rule readlines_terminated_append) (rule terminated_header)
    then show ?thesis
      using False by (simp add: run readlines_is_line [OF is_line_header] header_facts)
  next
    case True
    have "EQ \<notin> set first"
    proof
      assume "EQ \<in> set first"
      then have "EQ \<in> set (strip first)" by (rule strip_keeps) (simp add: isspace_def)
      with True show False by (simp add: header_facts)
    qed
    then have "encrypt_line w env ?k ?encs 0 first = Some (first, 0)"
      by (simp add: encrypt_line_keep)
    from encrypt_loop_first [OF this, of rest] loop obtain out' where
      out: "out = first # out'" "rest = [] \<longrightarrow> out' = []" by (auto simp: ls)
    from readlines_first_line [OF ls out] obtain t where "readlines (concat out) = first # t" ..
    then show ?thesis
      using True by (simp add: run)
  qed
qed

lemma decrypt_secrets_first_line:
  assumes "readlines content = first # rest" "comment_or_blank first"
  shows "\<exists>t. readlines (fst (decrypt_secrets w content env mk)) = first # t"
proof (cases "snd (decrypt_secrets w content env mk) = KeyNotSet")
  case True
  then have "fst (decrypt_secrets w content env mk) = content"
    by (auto simp: decrypt_secrets_def Let_def split: option.splits if_splits prod.splits)
  with assms(1) show ?thesis by simp
next
  case False
  then obtain k where k: "getenv w env = Some k" "k \<noteq> []"
    by (auto simp: decrypt_secrets_def split: option.splits if_splits)
  let ?encs = "set (List.map_filter encrypted_pattern_full (readlines content))"
  obtain out ok where loop: "decrypt_loop w k ?encs (readlines content) = (out, ok)"
    by (cases "decrypt_loop w k ?encs (readlines content)")
  have "decrypt_line w k ?encs first = Some first"
    using assms(2) by (simp add: decrypt_line_def)
  from decrypt_loop_first [OF this, of rest] loop obtain out' where
    out: "out = first # out'" "rest = [] \<longrightarrow> out' = []"
    by (auto simp: assms(1))
  from readlines_first_line [OF assms(1) out] obtain t where
    "readlines (concat out) = first # t" ..
  then show ?thesis
    by (simp add: decrypt_secrets_unfold [OF k loop])
qed

lemma readlines_delete_secret:
  "readlines (delete_secret content x)
     = filter (\<lambda>l. comment_or_blank l \<or> secret_name_of l \<noteq> x) (readlines content)"
proof -
  let ?keep = "\<lambda>l. comment_or_blank l \<or> secret_name_of l \<noteq> x"
  have ok: "list_all is_line (filter ?keep (readlines content))"
    "all_but_last terminated (filter ?keep (readlines content))"
    using readlines_lines [of content] by (auto simp: list_all_iff all_but_last_filter)
  show ?thesis
    by (simp add: delete_secret_def lines_of_delete readlines_of_lines [OF ok])
qed





















































section \<open>The claims\<close>

subsection \<open>C1: encrypt-all, then decrypt-all\<close>




subsection \<open>C2: the signature\<close>

text \<open>
  Claim C2 says that the signature stored in the metadata comment is the last 8
  characters of the base64 encoding of the SHA-256 hash of ciphertext, timestamp and
  key-env-name, so that two secrets with different ciphertexts get different
  signatures. The code hashes \<open>f"{master_key}"\<close> alone, with SHA-512. On a file with the
  two secrets \<open>FOO\<close> and \<open>BAZ\<close>, whatever the cipher, the clock and the hash are, both
  encrypted lines carry the same signature \<open>last8 (sha512_b64 w (fstr key))\<close>, in which
  neither the ciphertexts \<open>c0\<close>, \<open>c1\<close> nor the timestamps occur.
\<close>

theorem encrypt_secrets_signature_of_key_only:
  assumes "key = (if truthy mk then mk else getenv w env)"
    and "encrypt_value w 0 ''bar'' key = Some c0"
    and "encrypt_value w 1 ''qux'' key = Some c1"
  shows \<open>encrypt_secrets w ''FOO = "bar"\<newline>BAZ = "qux"\<newline>'' env mk =
     (HEADER_DISCLAIMER @ ''\<newline>FOO = ""\<newline>FOO_ENCRYPTED = "'' @ c0 @ ''"    #'' @ env @ '',''
         @ last8 (sha512_b64 w (fstr key)) @ '','' @ now w 0
         @ ''\<newline>BAZ = ""\<newline>BAZ_ENCRYPTED = "'' @ c1 @ ''"    #'' @ env @ '',''
         @ last8 (sha512_b64 w (fstr key)) @ '','' @ now w 1 @ [NL], Inr 2)\<close>
proof -
  let ?A = \<open>''FOO = "bar"\<newline>''\<close> and ?B = \<open>''BAZ = "qux"\<newline>''\<close>
  have rl: \<open>readlines ''FOO = "bar"\<newline>BAZ = "qux"\<newline>'' = [?A, ?B]\<close> by code_simp
  have encs: "List.map_filter encrypted_pattern [?A, ?B] = []" by code_simp
  have hd: "strip ?A \<noteq> HEADER_DISCLAIMER" by code_simp
  have a: "\<not> comment_or_blank ?A" "EQ \<in> set ?A" "secret_name_of ?A = ''FOO''"
    "secret_value_of ?A = ''bar''" "\<not> endswith (strip ''FOO'') ''_ENCRYPTED''"
    by code_simp+
  have b: "\<not> comment_or_blank ?B" "EQ \<in> set ?B" "secret_name_of ?B = ''BAZ''"
    "secret_value_of ?B = ''qux''" "\<not> endswith (strip ''BAZ'') ''_ENCRYPTED''"
    by code_simp+
  have 1: "encrypt_line w env key {} 0 ?A = Some (encrypted_line w env key 0 ''FOO'' c0, Suc 0)"
    using assms(2) a by (simp add: encrypt_line_new)
  have 2: "encrypt_line w env key {} (Suc 0) ?B
             = Some (encrypted_line w env key 1 ''BAZ'' c1, Suc (Suc 0))"
    using assms(3) b by (simp add: encrypt_line_new)
  show ?thesis
    unfolding encrypt_secrets_def Let_def rl encs
    using assms(1) hd 1 2 by (simp add: encrypted_line_def)
qed

theorem encrypt_secrets_signature_of_key_only_witness:
  \<open>encrypt_secrets demo_world ''FOO = "bar"\<newline>BAZ = "qux"\<newline>'' ''APP_KEY'' None =
     (HEADER_DISCLAIMER @ ''\<newline>FOO = ""\<newline>FOO_ENCRYPTED = "gAAAAABmYmFy"    #APP_KEY,dHVyZQ==,2024-06-18 10:00:00\<newline>BAZ = ""\<newline>BAZ_ENCRYPTED = "gAAAAABmcXV4"    #APP_KEY,dHVyZQ==,2024-06-18 10:00:00\<newline>'',
      Inr 2)\<close>
  using encrypt_secrets_signature_of_key_only
    [of "Some ''supersecretkey''" None demo_world "''APP_KEY''" "''gAAAAABmYmFy''" "''gAAAAABmcXV4''"]
  by (simp add: demo_world_def demo_encrypt_def truthy_def last8_def fstr_def)

subsection \<open>C3: a secret with an empty value\<close>

text \<open>
  Claim C3 says that encrypt-all leaves a plain line with an empty value and no
  encrypted counterpart untouched and never passes the empty plaintext to the cipher.
  The loop of \<open>encrypt_secrets\<close> has no test of the value on the path to \<open>encrypt_value\<close>:
  on the file that holds the one line \<open>FOO = ""\<close> the cipher is called with the empty
  string, and when it returns \<open>c\<close> the line \<open>FOO_ENCRYPTED = "c" ...\<close> is written and the
  count returned is 1.
\<close>

theorem encrypt_secrets_encrypts_empty_value:
  assumes "key = (if truthy mk then mk else getenv w env)"
    and "encrypt_value w 0 [] key = Some c"
  shows \<open>encrypt_secrets w ''FOO = ""\<newline>'' env mk =
     (HEADER_DISCLAIMER @ ''\<newline>FOO = ""\<newline>FOO_ENCRYPTED = "'' @ c @ ''"    #'' @ env @ '',''
         @ last8 (sha512_b64 w (fstr key)) @ '','' @ now w 0 @ [NL], Inr 1)\<close>
proof -
  let ?L = \<open>''FOO = ""\<newline>''\<close>
  have rl: "readlines ?L = [?L]" by code_simp
  have encs: "List.map_filter encrypted_pattern [?L] = []" by code_simp
  have hd: "strip ?L \<noteq> HEADER_DISCLAIMER" by code_simp
  have c: "\<not> comment_or_blank ?L" "EQ \<in> set ?L" "secret_name_of ?L = ''FOO''"
    "secret_value_of ?L = []" "\<not> endswith (strip ''FOO'') ''_ENCRYPTED''"
    by code_simp+
  have "encrypt_line w env key {} 0 ?L = Some (encrypted_line w env key 0 ''FOO'' c, Suc 0)"
    using assms(2) c by (simp add: encrypt_line_new)
  then show ?thesis
    unfolding encrypt_secrets_def Let_def rl encs
    using assms(1) hd by (simp add: encrypted_line_def)
qed

theorem encrypt_secrets_encrypts_empty_value_witness:
  \<open>encrypt_secrets demo_world ''FOO = ""\<newline>'' ''APP_KEY'' None =
     (HEADER_DISCLAIMER @ ''\<newline>FOO = ""\<newline>FOO_ENCRYPTED = "gAAAAABm"    #APP_KEY,dHVyZQ==,2024-06-18 10:00:00\<newline>'',
      Inr 1)\<close>
  using encrypt_secrets_encrypts_empty_value
    [of "Some ''supersecretkey''" None demo_world "''APP_KEY''" "''gAAAAABm''"]
  by (simp add: demo_world_def demo_encrypt_def truthy_def last8_def fstr_def)

subsection \<open>C4: delete-one\<close>




subsection \<open>C5: encrypt-all twice\<close>




subsection \<open>C6: a failure of the cipher\<close>

text \<open>
  Claim C6 says that when the cipher fails on a secret, encrypt-all aborts and leaves
  the file as it was before the call. \<open>encrypt_secrets\<close> calls \<open>sys.exit(1)\<close> inside the
  block that has the file open for writing: the file keeps what was written up to the
  failing secret and nothing else. On a file with a key declaration and the secrets
  \<open>FOO\<close> and \<open>BAZ\<close>, when the cipher raises on \<open>bar\<close> the file is left with the
  disclaimer and the key declaration; both secrets are gone.
\<close>

theorem encrypt_secrets_failure_truncates_file:
  assumes "key = (if truthy mk then mk else getenv w env)"
    and "encrypt_value w 0 ''bar'' key = None"
  shows \<open>encrypt_secrets w ''MASTER_KEY_ENV = "APP_KEY"\<newline>FOO = "bar"\<newline>BAZ = "qux"\<newline>'' env mk =
     (HEADER_DISCLAIMER @ ''\<newline>MASTER_KEY_ENV = "APP_KEY"\<newline>'', Inl (SystemExit 1))\<close>
proof -
  let ?K = \<open>''MASTER_KEY_ENV = "APP_KEY"\<newline>''\<close>
  let ?A = \<open>''FOO = "bar"\<newline>''\<close> and ?B = \<open>''BAZ = "qux"\<newline>''\<close>
  have rl: \<open>readlines ''MASTER_KEY_ENV = "APP_KEY"\<newline>FOO = "bar"\<newline>BAZ = "qux"\<newline>''
              = [?K, ?A, ?B]\<close>
    by code_simp
  have encs: "List.map_filter encrypted_pattern [?K, ?A, ?B] = []" by code_simp
  have hd: "strip ?K \<noteq> HEADER_DISCLAIMER" by code_simp
  have k: "\<not> comment_or_blank ?K" "EQ \<in> set ?K" "secret_name_of ?K = ''MASTER_KEY_ENV''"
    by code_simp+
  have a: "\<not> comment_or_blank ?A" "EQ \<in> set ?A" "secret_name_of ?A = ''FOO''"
    "secret_value_of ?A = ''bar''" "\<not> endswith (strip ''FOO'') ''_ENCRYPTED''"
    by code_simp+
  have 0: "encrypt_line w env key {} 0 ?K = Some (?K, 0)"
    using k by (simp add: encrypt_line_def)
  have 1: "encrypt_line w env key {} 0 ?A = None"
    using assms(2) a by (simp add: encrypt_line_new)
  show ?thesis
    unfolding encrypt_secrets_def Let_def rl encs
    using assms(1) hd 0 1 by simp
qed

theorem encrypt_secrets_failure_truncates_file_witness:
  \<open>encrypt_secrets bad_key_world
      ''MASTER_KEY_ENV = "APP_KEY"\<newline>FOO = "bar"\<newline>BAZ = "qux"\<newline>'' ''APP_KEY'' None =
     (HEADER_DISCLAIMER @ ''\<newline>MASTER_KEY_ENV = "APP_KEY"\<newline>'', Inl (SystemExit 1))\<close>
  using encrypt_secrets_failure_truncates_file
    [of "Some ''not-a-fernet-key''" None bad_key_world "''APP_KEY''"]
  by (simp add: bad_key_world_def truthy_def)

subsection \<open>C7: lines that are not recognised\<close>




subsection \<open>C8: decrypt-all without a key\<close>

text \<open>
  Claim C8: when the environment variable named by \<open>master_key_env\<close> is unset or empty,
  decrypt-all ends with the error that the variable is not set, before it opens the
  file: the content of the file is what it was before the call.
\<close>

theorem decrypt_secrets_without_key:
  "getenv w env = None \<or> getenv w env = Some [] \<Longrightarrow>
     decrypt_secrets w content env mk = (content, KeyNotSet)"
  by (auto simp: decrypt_secrets_def)

theorem decrypt_secrets_without_key_witness:
  \<open>(getenv demo_world ''NO_SUCH_KEY'' = None \<or> getenv demo_world ''NO_SUCH_KEY'' = Some [])
   \<and> decrypt_secrets demo_world ''FOO = ""\<newline>FOO_ENCRYPTED = "gAAAAABmYmFy"\<newline>''
         ''NO_SUCH_KEY'' (Some ''supersecretkey'')
       = (''FOO = ""\<newline>FOO_ENCRYPTED = "gAAAAABmYmFy"\<newline>'', KeyNotSet)\<close>
proof -
  have h: "getenv demo_world ''NO_SUCH_KEY'' = None \<or> getenv demo_world ''NO_SUCH_KEY'' = Some []"
    by (simp add: demo_world_def)
  show ?thesis
    using h decrypt_secrets_without_key [OF h] by simp
qed

subsection \<open>C9: the disclaimer\<close>

text \<open>
  Claim C9 says that encrypt-all, decrypt-all and delete-one each ensure that the
  disclaimer is the first line of the file they write. Only \<open>encrypt_secrets\<close> writes
  \<open>HEADER_DISCLAIMER\<close>. After decrypt-all of a file with an encrypted secret and no
  disclaimer, and after delete-one on a file with two plain secrets and no disclaimer,
  the file has no disclaimer.
\<close>

theorem decrypt_and_delete_write_no_disclaimer:
  \<open>decrypt_secrets demo_world ''FOO = ""\<newline>FOO_ENCRYPTED = "gAAAAABmYmFy"\<newline>'' ''APP_KEY'' None
     = (''FOO = "bar"\<newline>'', Completed)
   \<and> delete_secret ''FOO = "bar"\<newline>BAZ = "qux"\<newline>'' ''FOO'' = ''BAZ = "qux"\<newline>''\<close>
  by code_simp

text \<open>
  C9 as amended: encrypt-all ensures the disclaimer: after encrypt-all of a file that is
  not empty, however the call ends, the first line of the file is the disclaimer (up to
  white space around it, when the line was already there). Decrypt-all and delete-one
  write no disclaimer of their own; they keep the one that is the first line of the file.
\<close>

theorem disclaimer_ensured_by_encrypt_only:
  "(content \<noteq> [] \<longrightarrow>
      (\<exists>l t. readlines (fst (encrypt_secrets w content env mk)) = l # t
             \<and> strip l = HEADER_DISCLAIMER))
   \<and> (readlines content = (HEADER_DISCLAIMER @ [NL]) # rest \<longrightarrow>
        (\<exists>t. readlines (fst (decrypt_secrets w content env mk)) = (HEADER_DISCLAIMER @ [NL]) # t)
      \<and> (\<exists>t. readlines (delete_secret content x) = (HEADER_DISCLAIMER @ [NL]) # t))"
  using encrypt_secrets_first_line [of content w env mk]
    decrypt_secrets_first_line [of content "HEADER_DISCLAIMER @ [NL]" rest w env mk]
  by (auto simp: readlines_delete_secret header_facts)

theorem disclaimer_ensured_by_encrypt_only_witness:
  \<open>scenario_a_encrypted \<noteq> []
   \<and> (\<exists>l t. readlines (fst (encrypt_secrets demo_world scenario_a_encrypted ''APP_KEY'' None)) = l # t
             \<and> strip l = HEADER_DISCLAIMER)
   \<and> readlines scenario_a_encrypted = (HEADER_DISCLAIMER @ [NL]) #
        [''MASTER_KEY_ENV = "APP_KEY"\<newline>'', ''FOO = ""\<newline>'',
         ''FOO_ENCRYPTED = "gAAAAABmYmFy"    #APP_KEY,dHVyZQ==,2024-06-18 10:00:00\<newline>'']
   \<and> (\<exists>t. readlines (fst (decrypt_secrets demo_world scenario_a_encrypted ''APP_KEY'' None))
             = (HEADER_DISCLAIMER @ [NL]) # t)
   \<and> (\<exists>t. readlines (delete_secret scenario_a_encrypted ''FOO'') = (HEADER_DISCLAIMER @ [NL]) # t)\<close>
proof -
  have a: "scenario_a_encrypted \<noteq> []" by code_simp
  have b: \<open>readlines scenario_a_encrypted = (HEADER_DISCLAIMER @ [NL]) #
        [''MASTER_KEY_ENV = "APP_KEY"\<newline>'', ''FOO = ""\<newline>'',
         ''FOO_ENCRYPTED = "gAAAAABmYmFy"    #APP_KEY,dHVyZQ==,2024-06-18 10:00:00\<newline>'']\<close>
    by code_simp
  show ?thesis
    using a b disclaimer_ensured_by_encrypt_only [of scenario_a_encrypted demo_world "''APP_KEY''"
        None \<open>[''MASTER_KEY_ENV = "APP_KEY"\<newline>'', ''FOO = ""\<newline>'',
         ''FOO_ENCRYPTED = "gAAAAABmYmFy"    #APP_KEY,dHVyZQ==,2024-06-18 10:00:00\<newline>'']\<close>
        "''FOO''"]
    by blast
qed

subsection \<open>C10: the argument \<open>master_key\<close> of decrypt-all\<close>

text \<open>
  Claim C10: the result of decrypt-all does not depend on its argument \<open>master_key\<close>:
  with the same file content and the same environment, any two values of the argument
  give the same file and the same end of the call, since the key is read again from
  the environment variable named by \<open>master_key_env\<close>.
\<close>

theorem decrypt_secrets_ignores_master_key:
  "decrypt_secrets w content env mk1 = decrypt_secrets w content env mk2"
  by (simp add: decrypt_secrets_def)

theorem decrypt_secrets_ignores_master_key_witness:
  \<open>decrypt_secrets demo_world ''FOO = ""\<newline>FOO_ENCRYPTED = "gAAAAABmYmFy"\<newline>'' ''APP_KEY'' None
     = decrypt_secrets demo_world ''FOO = ""\<newline>FOO_ENCRYPTED = "gAAAAABmYmFy"\<newline>'' ''APP_KEY''
         (Some ''another-key'')\<close>
  using decrypt_secrets_ignores_master_key
    [of demo_world \<open>''FOO = ""\<newline>FOO_ENCRYPTED = "gAAAAABmYmFy"\<newline>''\<close> "''APP_KEY''" None
        "Some ''another-key''"]
  by simp

end
